theory Spec2Isabelle
  imports Main "HOL-Library.Word" "HOL-Library.Sublist"
begin

section \<open>Settings: \<open>gdb/command.h\<close>\<close>

subsection \<open>Kinds and storage types\<close>

text \<open>The enumeration \<open>var_types\<close>, in declaration order.\<close>

datatype var_types =
    var_boolean
  | var_auto_boolean
  | var_uinteger
  | var_integer
  | var_string
  | var_string_noescape
  | var_optional_filename
  | var_filename
  | var_zinteger
  | var_zuinteger
  | var_zuinteger_unlimited
  | var_enum

text \<open>
  Modelled from the spec: the enumeration \<open>auto_boolean\<close>, which \<open>command.h\<close> uses but
  does not declare; the spec calls it the tri-state auto boolean.
\<close>

datatype auto_boolean = AUTO_BOOLEAN_TRUE | AUTO_BOOLEAN_FALSE | AUTO_BOOLEAN_AUTO

text \<open>
  The C++ types that \<open>detail::var_types_storage\<close> associates with the kinds:
  \<open>bool\<close>, \<open>auto_boolean\<close>, \<open>unsigned int\<close>, \<open>int\<close>, \<open>std::string\<close> and \<open>const char *\<close>.
\<close>

datatype storage =
    T_bool
  | T_auto_boolean
  | T_unsigned_int
  | T_int
  | T_std_string
  | T_const_char_ptr

fun var_types_storage :: "var_types \<Rightarrow> storage" where
  "var_types_storage var_boolean = T_bool"
| "var_types_storage var_auto_boolean = T_auto_boolean"
| "var_types_storage var_uinteger = T_unsigned_int"
| "var_types_storage var_integer = T_int"
| "var_types_storage var_string = T_std_string"
| "var_types_storage var_string_noescape = T_std_string"
| "var_types_storage var_optional_filename = T_std_string"
| "var_types_storage var_filename = T_std_string"
| "var_types_storage var_zinteger = T_int"
| "var_types_storage var_zuinteger = T_unsigned_int"
| "var_types_storage var_zuinteger_unlimited = T_int"
| "var_types_storage var_enum = T_const_char_ptr"

text \<open>
  \<open>detail::var_types_have_same_storage<Ts...>\<close> has three specialisations: one, two, and
  three or more template arguments. The primary template is only declared, so there is no
  equation for the empty pack. The three functions below are its members \<open>value\<close>,
  \<open>type\<close> and \<open>covers_type\<close>.
\<close>

fun var_types_have_same_storage :: "var_types list \<Rightarrow> bool" where
  "var_types_have_same_storage [T] = True"
| "var_types_have_same_storage [T, U] = (var_types_storage T = var_types_storage U)"
| "var_types_have_same_storage (T # U # Us) =
     (var_types_have_same_storage [T, U] \<and> var_types_have_same_storage (T # Us))"

fun have_same_storage_type :: "var_types list \<Rightarrow> storage" where
  "have_same_storage_type (T # Us) = var_types_storage T"

fun covers_type :: "var_types list \<Rightarrow> var_types \<Rightarrow> bool" where
  "covers_type [T] t = (t = T)"
| "covers_type [T, U] t = (covers_type [T] t \<or> covers_type [U] t)"
| "covers_type (T # U # Us) t = (covers_type [T] t \<or> covers_type (U # Us) t)"

fun var_type_uses_string :: "var_types \<Rightarrow> bool" where
  "var_type_uses_string var_type =
     (var_type = var_string
      \<or> var_type = var_string_noescape
      \<or> var_type = var_optional_filename
      \<or> var_type = var_filename)"

subsection \<open>Values, memory and accessor functions\<close>

text \<open>
  A value of one of the six storage types. \<open>unsigned int\<close> and \<open>int\<close> are 32-bit words;
  a \<open>const char *\<close> is the string it points to, or \<open>None\<close> for a null pointer.
\<close>

datatype val =
    VBool bool
  | VAuto_boolean auto_boolean
  | VUnsigned_int "32 word"
  | VInt "32 word"
  | VStd_string string
  | VConst_char_ptr "string option"

fun val_storage :: "val \<Rightarrow> storage" where
  "val_storage (VBool b) = T_bool"
| "val_storage (VAuto_boolean a) = T_auto_boolean"
| "val_storage (VUnsigned_int u) = T_unsigned_int"
| "val_storage (VInt i) = T_int"
| "val_storage (VStd_string s) = T_std_string"
| "val_storage (VConst_char_ptr p) = T_const_char_ptr"

text \<open>
  The variables that settings refer to live in a store: an address holds a value. A
  \<open>void *\<close> is an optional address, \<open>None\<close> being \<open>nullptr\<close>. A getter \<open>T (*) ()\<close> reads the
  program's variables and a setter \<open>void (*) (T)\<close> updates them; a null function pointer is
  \<open>None\<close>.
\<close>

type_synonym addr = nat
type_synonym memory = "addr \<Rightarrow> val"
type_synonym getter = "memory \<Rightarrow> val"
type_synonym setter = "val \<Rightarrow> memory \<Rightarrow> memory"

text \<open>
  \<open>gdb_assert\<close> and \<open>internal_error\<close> do not return; they are the two faults of the model.
\<close>

datatype fault = Assertion_failure | Internal_error

subsection \<open>\<open>base_param_ref\<close> and \<open>param_ref\<close>\<close>

text \<open>
  The unions \<open>param_getter\<close> and \<open>param_setter\<close> overlay six function pointers in one slot;
  \<open>operator bool\<close> reads the slot through \<open>get_bool\<close>/\<open>set_bool\<close> whatever member was
  written, so each union is one optional function.
\<close>

record base_param_ref =
  m_var_type :: var_types
  m_var :: "addr option"
  m_getter :: "getter option"
  m_setter :: "setter option"

text \<open>The default member initialisers.\<close>

definition base_param_ref_init :: base_param_ref where
  "base_param_ref_init =
     \<lparr>m_var_type = var_boolean, m_var = None, m_getter = None, m_setter = None\<rparr>"

text \<open>\<open>base_param_ref::empty\<close>.\<close>

definition empty_ref :: "base_param_ref \<Rightarrow> bool" where
  "empty_ref s = (m_var s = None)"

text \<open>\<open>base_param_ref::get_p\<close>: two assertions, then the pointer.\<close>

definition get_p :: "var_types list \<Rightarrow> base_param_ref \<Rightarrow> fault + addr" where
  "get_p Ts s =
     (if \<not> covers_type Ts (m_var_type s) then Inl Assertion_failure
      else if empty_ref s then Inl Assertion_failure
      else (case m_var s of None \<Rightarrow> Inl Assertion_failure | Some p \<Rightarrow> Inr p))"

text \<open>
  \<open>base_param_ref::get\<close>. The code reads the cell through a pointer to the storage type
  of the pack (the \<open>static_cast\<close> of \<open>get_p\<close>). The store holds tagged values, and the
  read of the model is the read of the code where the cell holds a value of that storage
  type, as does every cell bound by \<open>set_p\<close> whose kind \<open>set_accessors\<close> has not rebound
  to a kind of another storage type. Where the tags differ the code reinterprets the cell
  (an \<open>int\<close> read as \<open>unsigned int\<close>) or is undefined; the properties of the cell read
  below assume that the tags agree.
\<close>

definition get :: "var_types list \<Rightarrow> base_param_ref \<Rightarrow> memory \<Rightarrow> fault + val" where
  "get Ts s mem =
     (if \<not> covers_type Ts (m_var_type s) then Inl Assertion_failure
      else (case m_getter s of
              Some getter \<Rightarrow> Inr (getter mem)
            | None \<Rightarrow> (case get_p Ts s of Inl e \<Rightarrow> Inl e | Inr p \<Rightarrow> Inr (mem p))))"

text \<open>
  \<open>base_param_ref::set\<close>; the result is the store after the call. The value has the
  storage type of the pack by the signature of \<open>set\<close>, and the code assigns it through a
  pointer to that type; as for \<open>get\<close>, the assignment of the model is the assignment of
  the code where the cell and the value are of that storage type.
\<close>

definition set_ref :: "var_types list \<Rightarrow> val \<Rightarrow> base_param_ref \<Rightarrow> memory \<Rightarrow> fault + memory" where
  "set_ref Ts v s mem =
     (if \<not> covers_type Ts (m_var_type s) then Inl Assertion_failure
      else (case m_setter s of
              Some setter \<Rightarrow> Inr (setter v mem)
            | None \<Rightarrow>
                (if empty_ref s then Inl Assertion_failure
                 else (case m_var s of
                         None \<Rightarrow> Inl Assertion_failure
                       | Some p \<Rightarrow> Inr (mem(p := v))))))"

text \<open>\<open>base_param_ref::set_accessors\<close>.\<close>

definition set_accessors ::
  "var_types \<Rightarrow> setter option \<Rightarrow> getter option \<Rightarrow> base_param_ref \<Rightarrow> base_param_ref" where
  "set_accessors T setter getter s =
     s\<lparr>m_var_type := T, m_setter := setter, m_getter := getter\<rparr>"

text \<open>\<open>base_param_ref::operator bool\<close>.\<close>

definition operator_bool :: "base_param_ref \<Rightarrow> bool" where
  "operator_bool s = ((m_getter s \<noteq> None \<and> m_setter s \<noteq> None) \<or> \<not> empty_ref s)"

text \<open>\<open>param_ref\<close> adds no member to \<open>base_param_ref\<close>, only \<open>set_type\<close> and \<open>set_p\<close>.\<close>

type_synonym param_ref = base_param_ref

definition set_type :: "var_types \<Rightarrow> param_ref \<Rightarrow> fault + param_ref" where
  "set_type ty s =
     (if \<not> empty_ref s then Inl Assertion_failure else Inr (s\<lparr>m_var_type := ty\<rparr>))"

definition set_p :: "var_types \<Rightarrow> addr option \<Rightarrow> param_ref \<Rightarrow> fault + param_ref" where
  "set_p T v s =
     (if v = None then Inl Assertion_failure
      else (case set_type T s of
              Inl e \<Rightarrow> Inl e
            | Inr s' \<Rightarrow> Inr (s'\<lparr>m_var := v\<rparr>)))"

section \<open>GCC modes: \<open>gdb/compile/compile-c-support.c\<close>\<close>

text \<open>
  \<open>c_get_mode_for_size\<close>: \<open>mode\<close> starts as \<open>NULL\<close>, the switch assigns it or calls
  \<open>internal_error\<close>, and \<open>mode\<close> is returned.
\<close>

definition c_get_mode_for_size :: "int \<Rightarrow> fault + string option" where
  "c_get_mode_for_size sz =
     (if sz = 1 then Inr (Some ''QI'')
      else if sz = 2 then Inr (Some ''HI'')
      else if sz = 4 then Inr (Some ''SI'')
      else if sz = 8 then Inr (Some ''DI'')
      else Inl Internal_error)"

text \<open>The line that \<open>compile_program::compute\<close> prints for one mode.\<close>

definition mode_typedef :: "string \<Rightarrow> string" where
  "mode_typedef mode =
     ''typedef int __attribute__ ((__mode__(__'' @ mode @ ''__))) __gdb_int_'' @ mode
       @ '';'' @ [CHR 0x0A]"

text \<open>
  The loop \<open>for (int i = 0; i < 4; ++i)\<close> of \<open>compile_program::compute\<close>, from the value
  \<open>i\<close> of its counter, appending to the buffer.
\<close>

function compute_modes :: "nat \<Rightarrow> string \<Rightarrow> fault + string" where
  "compute_modes i buf =
     (if i < 4 then
        (case c_get_mode_for_size (push_bit i 1) of
           Inl e \<Rightarrow> Inl e
         | Inr mode \<Rightarrow>
             (case mode of
                None \<Rightarrow> Inl Assertion_failure
              | Some m \<Rightarrow> compute_modes (i + 1) (buf @ mode_typedef m)))
      else Inr buf)"
  by pat_completeness auto
termination
  by (relation "measure (\<lambda>(i, buf). 4 - i)") auto

section \<open>Command lookup\<close>

text \<open>
  Modelled from the spec: the command node (\<open>struct cmd_list_element\<close>), which
  \<open>command.h\<close> only declares. Of the attributes the spec lists, the lookup reads the name,
  whether a handler is present, the abbreviation-allowed flag and the default-argument
  string. The variants are the spec's Leaf, Prefix (owning its child list) and Alias (with
  its target).
\<close>

datatype command_node =
    Leaf (name: string) (has_handler: bool) (abbrev_allowed: bool) (default_args: string)
  | Prefix (name: string) (has_handler: bool) (abbrev_allowed: bool) (default_args: string)
      (children: "command_node list")
  | Alias (name: string) (has_handler: bool) (abbrev_allowed: bool) (default_args: string)
      (target: command_node)

text \<open>
  Modelled from the spec: the tokenizer, which is not in the sources. The lookup takes
  the next whitespace-delimited token from the cursor.
\<close>

definition is_whitespace :: "char \<Rightarrow> bool" where
  "is_whitespace c = (c = CHR '' '' \<or> c = CHR 0x09 \<or> c = CHR 0x0A \<or> c = CHR 0x0D)"

definition skip_whitespace :: "string \<Rightarrow> string" where
  "skip_whitespace text = dropWhile is_whitespace text"

definition next_token :: "string \<Rightarrow> string" where
  "next_token text = takeWhile (\<lambda>c. \<not> is_whitespace c) text"

text \<open>
  Modelled from the spec: the matching rule of the lookup, whose code is not in the
  sources. A sibling matches a token when the token is its name or, if the sibling allows
  abbreviation, a case-sensitive prefix of its name; nodes without handler are skipped
  when the caller asks to ignore help classes; an exact match wins over mere prefix
  matches.
\<close>

definition token_matches :: "string \<Rightarrow> command_node \<Rightarrow> bool" where
  "token_matches tok c = (tok = name c \<or> (abbrev_allowed c \<and> prefix tok (name c)))"

definition select_matches :: "string \<Rightarrow> command_node list \<Rightarrow> bool \<Rightarrow> command_node list" where
  "select_matches tok clist ignore_help_classes =
     (let candidates =
            filter (\<lambda>c. token_matches tok c \<and> (ignore_help_classes \<longrightarrow> has_handler c)) clist;
          exact = filter (\<lambda>c. name c = tok) candidates
      in if exact \<noteq> [] then exact else candidates)"

text \<open>
  Modelled from the spec: alias resolution, whose code is not in the sources. An alias is
  followed transitively to a base command, and the default arguments of the aliases
  traversed are accumulated.
\<close>

fun resolve_alias :: "command_node \<Rightarrow> string list \<Rightarrow> command_node \<times> string list" where
  "resolve_alias (Alias n h a d t) acc = resolve_alias t (acc @ [d])"
| "resolve_alias c acc = (c, acc)"

text \<open>
  Modelled from the spec: the three results of the lookup. \<open>Unique\<close> carries the resolved
  node, the list it was found in, the cursor and the accumulated default arguments;
  \<open>Ambiguous\<close> is the sentinel (\<open>CMD_LIST_AMBIGUOUS\<close>) with the best-known enclosing prefix
  node, if any, and the cursor.
\<close>

datatype lookup_result =
    NoMatch
  | Unique command_node "command_node list" string "string list"
  | Ambiguous "command_node option" string

text \<open>
  Modelled from the spec: \<open>lookup_cmd_1\<close>, which \<open>command.h\<close> declares and documents and
  whose body is not in the sources. More than one match is ambiguous at this level; a
  single match is resolved through its aliases; a prefix with more input descends into its
  children; a prefix with no more input, or a leaf, is the unique result. When the children
  hold no match the prefix itself is the longest valid path. When the lookup among the
  children is ambiguous, the enclosing prefix is reported unless a deeper one already is.
\<close>

function lookup_cmd_1 :: "string \<Rightarrow> command_node list \<Rightarrow> bool \<Rightarrow> lookup_result" where
  "lookup_cmd_1 text clist ignore_help_classes =
     (let text1 = skip_whitespace text; tok = next_token text1 in
      if tok = [] then NoMatch
      else
        (case select_matches tok clist ignore_help_classes of
           [] \<Rightarrow> NoMatch
         | [found] \<Rightarrow>
             (let rest = drop (length tok) text1;
                  resolved = resolve_alias found []
              in case fst resolved of
                   Prefix n h a d subcommands \<Rightarrow>
                     if skip_whitespace rest \<noteq> [] then
                       (case lookup_cmd_1 rest subcommands ignore_help_classes of
                          NoMatch \<Rightarrow> Unique (fst resolved) clist rest (snd resolved)
                        | Unique c l cur da \<Rightarrow> Unique c l cur (snd resolved @ da)
                        | Ambiguous None cur \<Rightarrow> Ambiguous (Some (fst resolved)) cur
                        | Ambiguous (Some p) cur \<Rightarrow> Ambiguous (Some p) cur)
                     else Unique (fst resolved) clist rest (snd resolved)
                 | _ \<Rightarrow> Unique (fst resolved) clist rest (snd resolved))
         | _ \<Rightarrow> Ambiguous None text1))"
  by pat_completeness auto
termination
proof (relation "measure (\<lambda>(inp, clist, ign). length inp)")
  show "wf (measure (\<lambda>(inp, clist, ign). length inp))"
    by simp
next
  fix inp :: string and clist :: "command_node list" and ign :: bool
    and text1 tok :: string and rest :: string and x :: "command_node list"
  assume t1: "text1 = skip_whitespace inp" and tk: "tok = next_token text1"
    and ne: "tok \<noteq> []" and r: "rest = drop (length tok) text1"
  have "length text1 \<le> length inp"
    unfolding t1 skip_whitespace_def by (rule length_dropWhile_le)
  moreover have "0 < length tok"
    using ne by simp
  moreover have "length tok \<le> length text1"
    unfolding tk next_token_def by (rule length_takeWhile_le)
  moreover have "length rest = length text1 - length tok"
    unfolding r by simp
  ultimately have "length rest < length inp"
    by linarith
  then show "((rest, x, ign), (inp, clist, ign)) \<in> measure (\<lambda>(inp, clist, ign). length inp)"
    by simp
qed

declare lookup_cmd_1.simps [simp del]

section \<open>Command repetition\<close>

text \<open>
  Modelled from the spec: the repeat state, whose variables are not in the sources. It
  holds the saved line (none before any line was saved), the flag that the running command
  refuses repetition, and the arguments substituted on repetition.
\<close>

record repeat_state =
  saved_line :: "string option"
  no_repeat :: bool
  repeat_arguments :: "string option"

text \<open>Modelled from the spec: the user-visible usage error of \<open>repeat_previous\<close>.\<close>

datatype usage_error = No_previous_command

text \<open>
  Modelled from the spec: \<open>repeat_previous\<close>, which \<open>command.h\<close> declares and documents and
  whose body is not in the sources. It fails if no previous saved line exists; otherwise it
  marks the current command as non-repeating and returns the saved line. The state after
  the call is returned in both cases, as an error leaves the state behind.
\<close>

definition repeat_previous :: "repeat_state \<Rightarrow> (usage_error + string) \<times> repeat_state" where
  "repeat_previous st =
     (case saved_line st of
        None \<Rightarrow> (Inl No_previous_command, st)
      | Some line \<Rightarrow> (Inr line, st\<lparr>no_repeat := True\<rparr>))"

section \<open>Binding sequences and sample values\<close>

text \<open>
  A registering module binds a \<open>param_ref\<close> by calls of \<open>set_p\<close> and \<open>set_accessors\<close>;
  \<open>run_calls\<close> performs such calls in order and stops at the first fault.
\<close>

datatype call =
    Set_p var_types "addr option"
  | Set_accessors var_types "setter option" "getter option"

fun run_calls :: "call list \<Rightarrow> param_ref \<Rightarrow> fault + param_ref" where
  "run_calls [] s = Inr s"
| "run_calls (Set_p T v # cs) s =
     (case set_p T v s of Inl e \<Rightarrow> Inl e | Inr s' \<Rightarrow> run_calls cs s')"
| "run_calls (Set_accessors T setter getter # cs) s =
     run_calls cs (set_accessors T setter getter s)"

text \<open>The exclusivity that the data model asks of the two storages.\<close>

definition storage_exclusive :: "base_param_ref \<Rightarrow> bool" where
  "storage_exclusive s = (\<not> (m_var s \<noteq> None \<and> m_getter s \<noteq> None \<and> m_setter s \<noteq> None))"

text \<open>A store of booleans, a getter and a setter, for concrete instances.\<close>

definition mem0 :: memory where
  "mem0 a = VBool False"

definition getter_true :: getter where
  "getter_true mem = VBool True"

definition setter_at2 :: setter where
  "setter_at2 v mem = mem(2 := v)"

text \<open>A root list with the prefix \<open>info\<close> and its subcommands, for concrete instances.\<close>

definition info_list :: "command_node list" where
  "info_list =
     [Leaf ''args'' True True [], Leaf ''address'' True True [],
      Leaf ''types'' True True [], Leaf ''target'' True True []]"

definition root_list :: "command_node list" where
  "root_list =
     [Prefix ''info'' True True [] info_list,
      Leaf ''inferior'' True True [],
      Alias ''i'' True True ''-q'' (Prefix ''info'' True True [] info_list),
      Leaf ''run'' True True [], Leaf ''r'' True True []]"

section \<open>Properties of settings\<close>

subsection \<open>Kind groups\<close>

lemma covers_type_set: "Ts \<noteq> [] \<Longrightarrow> covers_type Ts t = (t \<in> set Ts)"
  by (induction Ts t rule: covers_type.induct) auto

lemma same_storage_all:
  "Ts \<noteq> [] \<Longrightarrow>
   var_types_have_same_storage Ts = (\<forall>U \<in> set Ts. var_types_storage U = var_types_storage (hd Ts))"
  by (induction Ts rule: var_types_have_same_storage.induct) auto

subsection \<open>Reading and writing\<close>

text \<open>
  Claim C1. When the kind of a setting is covered by the requested kinds, \<open>get\<close> returns
  what the bound getter returns if a getter is bound, and otherwise the value read through
  the bound memory cell, the cell holding a value of the storage type of the requested
  kinds; \<open>set\<close> calls the bound setter with the value if a setter is bound, and otherwise
  stores the value in the memory cell, the cell and the value being of that storage type.
  Without accessor, a setting that has no memory cell fails its assertion.
\<close>

theorem get_set_dispatch:
  assumes "covers_type Ts (m_var_type s)"
  shows "(\<forall>getter. m_getter s = Some getter \<longrightarrow> get Ts s mem = Inr (getter mem))
       \<and> (\<forall>p. m_getter s = None \<and> m_var s = Some p
                \<and> val_storage (mem p) = have_same_storage_type Ts
              \<longrightarrow> get Ts s mem = Inr (mem p))
       \<and> (m_getter s = None \<and> m_var s = None \<longrightarrow> get Ts s mem = Inl Assertion_failure)
       \<and> (\<forall>setter. m_setter s = Some setter \<longrightarrow> set_ref Ts v s mem = Inr (setter v mem))
       \<and> (\<forall>p. m_setter s = None \<and> m_var s = Some p
                \<and> val_storage (mem p) = have_same_storage_type Ts
                \<and> val_storage v = have_same_storage_type Ts
              \<longrightarrow> set_ref Ts v s mem = Inr (mem(p := v)))
       \<and> (m_setter s = None \<and> m_var s = None \<longrightarrow> set_ref Ts v s mem = Inl Assertion_failure)"
  using assms by (simp add: get_def get_p_def set_ref_def empty_ref_def)

theorem get_set_dispatch_witness:
  "covers_type [var_string, var_filename]
       (m_var_type \<lparr>m_var_type = var_filename, m_var = Some 7, m_getter = None, m_setter = None\<rparr>)
   \<and> val_storage ((mem0(7 := VStd_string ''a.out'')) 7)
       = have_same_storage_type [var_string, var_filename]
   \<and> val_storage (VStd_string ''b.out'') = have_same_storage_type [var_string, var_filename]
   \<and> get [var_string, var_filename]
         \<lparr>m_var_type = var_filename, m_var = Some 7, m_getter = None, m_setter = None\<rparr>
         (mem0(7 := VStd_string ''a.out''))
       = Inr (VStd_string ''a.out'')
   \<and> set_ref [var_string, var_filename] (VStd_string ''b.out'')
         \<lparr>m_var_type = var_filename, m_var = Some 7, m_getter = None, m_setter = None\<rparr>
         (mem0(7 := VStd_string ''a.out''))
       = Inr (mem0(7 := VStd_string ''b.out''))
   \<and> covers_type [var_boolean]
       (m_var_type (set_accessors var_boolean None (Some getter_true) base_param_ref_init))
   \<and> get [var_boolean] (set_accessors var_boolean None (Some getter_true) base_param_ref_init) mem0
       = Inr (VBool True)
   \<and> set_ref [var_boolean] (VBool False)
         (set_accessors var_boolean None (Some getter_true) base_param_ref_init) mem0
       = Inl Assertion_failure
   \<and> covers_type [var_boolean]
       (m_var_type (set_accessors var_boolean (Some setter_at2) None base_param_ref_init))
   \<and> set_ref [var_boolean] (VBool True)
         (set_accessors var_boolean (Some setter_at2) None base_param_ref_init) mem0
       = Inr (mem0(2 := VBool True))
   \<and> get [var_boolean] (set_accessors var_boolean (Some setter_at2) None base_param_ref_init) mem0
       = Inl Assertion_failure"
  using get_set_dispatch [of "[var_string, var_filename]"
      "\<lparr>m_var_type = var_filename, m_var = Some 7, m_getter = None, m_setter = None\<rparr>"
      "mem0(7 := VStd_string ''a.out'')" "VStd_string ''b.out''"]
    get_set_dispatch [of "[var_boolean]"
      "set_accessors var_boolean None (Some getter_true) base_param_ref_init" mem0 "VBool False"]
    get_set_dispatch [of "[var_boolean]"
      "set_accessors var_boolean (Some setter_at2) None base_param_ref_init" mem0 "VBool True"]
  by (simp add: set_accessors_def base_param_ref_init_def getter_true_def setter_at2_def)

text \<open>
  Claim C2. On a freshly constructed setting, \<open>set_p\<close> of kind \<open>K\<close> with a non-null pointer
  succeeds, the following \<open>set\<close> of kind \<open>K\<close> stores the value in the cell, and the
  following \<open>get\<close> of kind \<open>K\<close> returns exactly that value. This holds for every kind,
  address, value and store, so in particular for the values of the storage type of \<open>K\<close>.
\<close>

theorem cell_round_trip:
  "set_p K (Some p) base_param_ref_init = Inr (base_param_ref_init\<lparr>m_var_type := K, m_var := Some p\<rparr>)
   \<and> set_ref [K] v (base_param_ref_init\<lparr>m_var_type := K, m_var := Some p\<rparr>) mem = Inr (mem(p := v))
   \<and> get [K] (base_param_ref_init\<lparr>m_var_type := K, m_var := Some p\<rparr>) (mem(p := v)) = Inr v"
  by (simp add: set_p_def set_type_def set_ref_def get_def get_p_def empty_ref_def
      base_param_ref_init_def)

theorem cell_round_trip_witness:
  "get [var_uinteger] (base_param_ref_init\<lparr>m_var_type := var_uinteger, m_var := Some 5\<rparr>)
       (mem0(5 := VUnsigned_int 42))
     = Inr (VUnsigned_int 42)
   \<and> val_storage (VUnsigned_int 42) = var_types_storage var_uinteger"
  using cell_round_trip [of var_uinteger 5 "VUnsigned_int 42" mem0]
  by simp

text \<open>
  Claim C3. When the requested kinds do not cover the kind of the setting, \<open>get\<close>, \<open>set\<close>
  and \<open>get_p\<close> fail their first assertion: no value is returned, no accessor is called and
  the store is not written.
\<close>

theorem kind_mismatch_faults:
  assumes "\<not> covers_type Ts (m_var_type s)"
  shows "get Ts s mem = Inl Assertion_failure
       \<and> set_ref Ts v s mem = Inl Assertion_failure
       \<and> get_p Ts s = Inl Assertion_failure"
  using assms by (simp add: get_def set_ref_def get_p_def)

theorem kind_mismatch_faults_witness:
  "\<not> covers_type [var_zinteger, var_zuinteger_unlimited] (m_var_type (base_param_ref_init\<lparr>m_var_type := var_integer, m_var := Some 1\<rparr>))
   \<and> get [var_zinteger, var_zuinteger_unlimited] (base_param_ref_init\<lparr>m_var_type := var_integer, m_var := Some 1\<rparr>) mem0 = Inl Assertion_failure
   \<and> set_ref [var_zinteger, var_zuinteger_unlimited] (VInt 5) (base_param_ref_init\<lparr>m_var_type := var_integer, m_var := Some 1\<rparr>) mem0 = Inl Assertion_failure"
  using kind_mismatch_faults [of "[var_zinteger, var_zuinteger_unlimited]"
      "base_param_ref_init\<lparr>m_var_type := var_integer, m_var := Some 1\<rparr>" mem0 "VInt 5"]
  by (simp add: base_param_ref_init_def)

subsection \<open>Binding\<close>

lemma run_calls_keeps_cell:
  "run_calls cs s = Inr s' \<Longrightarrow> m_var s = Some a \<Longrightarrow> m_var s' = Some a"
proof (induction cs s rule: run_calls.induct)
  case (1 s)
  then show ?case by simp
next
  case (2 T v cs s)
  from "2.prems" have "set_p T v s = Inl Assertion_failure"
    by (simp add: set_p_def set_type_def empty_ref_def)
  with "2.prems" show ?case by simp
next
  case (3 T setter getter cs s)
  then show ?case by (simp add: set_accessors_def)
qed

text \<open>
  Claim C4, as stated, fails: \<open>set_p\<close> followed by \<open>set_accessors\<close> leaves a setting that
  holds a memory cell and a full accessor pair at once.
\<close>

theorem storage_exclusivity_counterexample:
  "run_calls [Set_p var_boolean (Some 1), Set_accessors var_boolean (Some setter_at2) (Some getter_true)]
       base_param_ref_init
     = Inr \<lparr>m_var_type = var_boolean, m_var = Some 1,
            m_getter = Some getter_true, m_setter = Some setter_at2\<rparr>
   \<and> \<not> storage_exclusive \<lparr>m_var_type = var_boolean, m_var = Some 1,
            m_getter = Some getter_true, m_setter = Some setter_at2\<rparr>"
  by (simp add: set_p_def set_type_def empty_ref_def set_accessors_def base_param_ref_init_def
      storage_exclusive_def)

text \<open>
  Claim C4, amended. \<open>set_accessors\<close> neither checks nor clears a bound memory cell, and
  \<open>set_p\<close> checks only that no cell is bound, so a setting may hold both storages. What
  holds is: \<open>set_accessors\<close> leaves the cell as it is; \<open>set_p\<close> on a setting with a bound
  cell fails its assertion; over every sequence of \<open>set_p\<close> and \<open>set_accessors\<close> calls
  that does not fault, a bound cell stays bound to the same address; and when a cell and
  both accessors are present, \<open>get\<close> and \<open>set\<close> of a covered kind use the accessors.
\<close>

theorem bound_cell_kept:
  "m_var (set_accessors T setter getter s) = m_var s
   \<and> (m_var s \<noteq> None \<longrightarrow> set_p T p s = Inl Assertion_failure)
   \<and> (run_calls cs s = Inr s' \<and> m_var s = Some a \<longrightarrow> m_var s' = Some a)
   \<and> (covers_type Ts (m_var_type s) \<and> m_var s = Some a \<and> m_getter s = Some g \<and> m_setter s = Some f
        \<longrightarrow> get Ts s mem = Inr (g mem) \<and> set_ref Ts v s mem = Inr (f v mem))"
  using run_calls_keeps_cell [of cs s s' a]
  by (auto simp add: set_accessors_def set_p_def set_type_def empty_ref_def get_def set_ref_def)

theorem bound_cell_kept_witness:
  "m_var \<lparr>m_var_type = var_boolean, m_var = Some 1, m_getter = None, m_setter = None\<rparr> \<noteq> None
   \<and> set_p var_integer (Some 9)
         \<lparr>m_var_type = var_boolean, m_var = Some 1, m_getter = None, m_setter = None\<rparr>
       = Inl Assertion_failure
   \<and> run_calls [Set_accessors var_boolean (Some setter_at2) (Some getter_true)]
         \<lparr>m_var_type = var_boolean, m_var = Some 1, m_getter = None, m_setter = None\<rparr>
       = Inr \<lparr>m_var_type = var_boolean, m_var = Some 1,
              m_getter = Some getter_true, m_setter = Some setter_at2\<rparr>
   \<and> m_var \<lparr>m_var_type = var_boolean, m_var = Some 1,
              m_getter = Some getter_true, m_setter = Some setter_at2\<rparr> = Some 1
   \<and> covers_type [var_boolean] var_boolean
   \<and> get [var_boolean]
         \<lparr>m_var_type = var_boolean, m_var = Some 1,
           m_getter = Some getter_true, m_setter = Some setter_at2\<rparr> mem0
       = Inr (VBool True)
   \<and> set_ref [var_boolean] (VBool True)
         \<lparr>m_var_type = var_boolean, m_var = Some 1,
           m_getter = Some getter_true, m_setter = Some setter_at2\<rparr> mem0
       = Inr (mem0(2 := VBool True))"
  using bound_cell_kept [of var_integer None None
      "\<lparr>m_var_type = var_boolean, m_var = Some 1, m_getter = None, m_setter = None\<rparr>"
      "Some 9" "[Set_accessors var_boolean (Some setter_at2) (Some getter_true)]"
      "\<lparr>m_var_type = var_boolean, m_var = Some 1,
        m_getter = Some getter_true, m_setter = Some setter_at2\<rparr>"
      1 "[var_boolean]" getter_true setter_at2 mem0 "VBool True"]
    bound_cell_kept [of var_boolean None None
      "\<lparr>m_var_type = var_boolean, m_var = Some 1,
        m_getter = Some getter_true, m_setter = Some setter_at2\<rparr>"
      None "[]"
      "\<lparr>m_var_type = var_boolean, m_var = Some 1,
        m_getter = Some getter_true, m_setter = Some setter_at2\<rparr>"
      1 "[var_boolean]" getter_true setter_at2 mem0 "VBool True"]
  by (simp add: set_accessors_def getter_true_def setter_at2_def)

text \<open>
  Claim C5, as stated, fails. A setting bound by \<open>set_accessors\<close> alone has a full accessor
  pair, yet \<open>empty\<close> answers true for it, and \<open>get\<close> and \<open>set\<close> on it succeed. A setting
  with a setter only and no cell has neither a memory reference nor a full pair, yet \<open>set\<close>
  on it succeeds; it is not valid although one accessor is bound.
\<close>

theorem empty_setting_counterexample:
  "empty_ref (set_accessors var_boolean (Some setter_at2) (Some getter_true) base_param_ref_init)
   \<and> m_getter (set_accessors var_boolean (Some setter_at2) (Some getter_true) base_param_ref_init) \<noteq> None
   \<and> m_setter (set_accessors var_boolean (Some setter_at2) (Some getter_true) base_param_ref_init) \<noteq> None
   \<and> get [var_boolean] (set_accessors var_boolean (Some setter_at2) (Some getter_true) base_param_ref_init) mem0
       = Inr (VBool True)
   \<and> set_ref [var_boolean] (VBool True)
         (set_accessors var_boolean (Some setter_at2) (Some getter_true) base_param_ref_init) mem0
       = Inr (mem0(2 := VBool True))
   \<and> m_var (set_accessors var_boolean (Some setter_at2) None base_param_ref_init) = None
   \<and> m_getter (set_accessors var_boolean (Some setter_at2) None base_param_ref_init) = None
   \<and> set_ref [var_boolean] (VBool True)
         (set_accessors var_boolean (Some setter_at2) None base_param_ref_init) mem0
       = Inr (mem0(2 := VBool True))
   \<and> \<not> operator_bool (set_accessors var_boolean (Some setter_at2) None base_param_ref_init)"
  by (simp add: empty_ref_def set_accessors_def base_param_ref_init_def get_def set_ref_def
      getter_true_def setter_at2_def operator_bool_def)

text \<open>
  Claim C5, amended. \<open>empty\<close> answers true exactly when no memory cell is bound, whatever
  the accessors are. \<open>get\<close> on a setting with neither cell nor getter fails its assertion,
  and so does \<open>set\<close> on a setting with neither cell nor setter. A setting is valid (its
  boolean conversion is true) if and only if it is not empty or both a getter and a setter
  are bound.
\<close>

theorem empty_and_valid:
  "empty_ref s = (m_var s = None)
   \<and> (m_var s = None \<and> m_getter s = None \<longrightarrow> get Ts s mem = Inl Assertion_failure)
   \<and> (m_var s = None \<and> m_setter s = None \<longrightarrow> set_ref Ts v s mem = Inl Assertion_failure)
   \<and> operator_bool s = (\<not> empty_ref s \<or> (m_getter s \<noteq> None \<and> m_setter s \<noteq> None))"
  by (auto simp add: empty_ref_def get_def get_p_def set_ref_def operator_bool_def)

theorem empty_and_valid_witness:
  "empty_ref base_param_ref_init
   \<and> m_var base_param_ref_init = None \<and> m_getter base_param_ref_init = None
   \<and> m_setter base_param_ref_init = None
   \<and> get [var_boolean] base_param_ref_init mem0 = Inl Assertion_failure
   \<and> set_ref [var_boolean] (VBool True) base_param_ref_init mem0 = Inl Assertion_failure
   \<and> operator_bool base_param_ref_init = False"
  using empty_and_valid [of base_param_ref_init "[var_boolean]" mem0 "VBool True"]
  by (simp add: base_param_ref_init_def)

text \<open>
  Claim C6. \<open>set_type\<close> succeeds exactly on an empty setting. \<open>set_p\<close> with a non-null
  pointer on an empty setting (one with no memory cell bound) installs the kind and the
  pointer and changes nothing else; with a null pointer, or on a setting whose cell is
  already bound, it fails its assertion.
\<close>

theorem set_p_precondition:
  "set_type K s = (if empty_ref s then Inr (s\<lparr>m_var_type := K\<rparr>) else Inl Assertion_failure)
   \<and> (p \<noteq> None \<and> empty_ref s \<longrightarrow> set_p K p s = Inr (s\<lparr>m_var_type := K, m_var := p\<rparr>))
   \<and> (p = None \<or> \<not> empty_ref s \<longrightarrow> set_p K p s = Inl Assertion_failure)"
  by (auto simp add: set_p_def set_type_def)

theorem set_p_precondition_witness:
  "Some (3::nat) \<noteq> None \<and> empty_ref base_param_ref_init
   \<and> set_p var_enum (Some 3) base_param_ref_init
       = Inr \<lparr>m_var_type = var_enum, m_var = Some 3, m_getter = None, m_setter = None\<rparr>
   \<and> \<not> empty_ref \<lparr>m_var_type = var_enum, m_var = Some 3, m_getter = None, m_setter = None\<rparr>
   \<and> set_p var_enum (Some 4)
         \<lparr>m_var_type = var_enum, m_var = Some 3, m_getter = None, m_setter = None\<rparr>
       = Inl Assertion_failure
   \<and> set_p var_enum None base_param_ref_init = Inl Assertion_failure"
  using set_p_precondition [of var_enum base_param_ref_init "Some 3"]
    set_p_precondition [of var_enum
      "\<lparr>m_var_type = var_enum, m_var = Some 3, m_getter = None, m_setter = None\<rparr>" "Some 4"]
    set_p_precondition [of var_enum base_param_ref_init None]
  by (simp add: base_param_ref_init_def empty_ref_def)

subsection \<open>Shared representations\<close>

text \<open>
  Claim C7, as stated, fails: \<open>var_zinteger\<close> is held in an \<open>int\<close> and \<open>var_zuinteger\<close> in
  an \<open>unsigned int\<close>, so \<open>var_types_have_same_storage\<close> is false on the zero-capable kinds.
\<close>

theorem zero_capable_group_counterexample:
  "var_types_storage var_zinteger = T_int
   \<and> var_types_storage var_zuinteger = T_unsigned_int
   \<and> \<not> var_types_have_same_storage [var_zinteger, var_zuinteger]
   \<and> \<not> var_types_have_same_storage [var_zinteger, var_zuinteger, var_zuinteger_unlimited]"
  by simp

text \<open>
  Claim C7, amended. \<open>var_type_uses_string\<close> is true exactly for \<open>var_string\<close>,
  \<open>var_string_noescape\<close>, \<open>var_optional_filename\<close> and \<open>var_filename\<close>, which are exactly the
  kinds held in a \<open>std::string\<close>; \<open>var_types_have_same_storage\<close> holds over every non-empty
  list of these four kinds. Of the zero-capable integer kinds, \<open>var_zinteger\<close> and
  \<open>var_zuinteger_unlimited\<close> share the \<open>int\<close> representation, and
  \<open>var_types_have_same_storage\<close> holds over every non-empty list of these two;
  \<open>var_zuinteger\<close> shares the \<open>unsigned int\<close> representation of \<open>var_uinteger\<close>.
\<close>

theorem storage_groups:
  "var_type_uses_string t
     = (t \<in> {var_string, var_string_noescape, var_optional_filename, var_filename})
   \<and> var_type_uses_string t = (var_types_storage t = T_std_string)
   \<and> (Ts \<noteq> [] \<and> set Ts \<subseteq> {var_string, var_string_noescape, var_optional_filename, var_filename}
        \<longrightarrow> var_types_have_same_storage Ts \<and> have_same_storage_type Ts = T_std_string)
   \<and> (Ts \<noteq> [] \<and> set Ts \<subseteq> {var_zinteger, var_zuinteger_unlimited}
        \<longrightarrow> var_types_have_same_storage Ts \<and> have_same_storage_type Ts = T_int)
   \<and> var_types_have_same_storage [var_zuinteger, var_uinteger]"
proof -
  have a: "var_type_uses_string t
     = (t \<in> {var_string, var_string_noescape, var_optional_filename, var_filename})"
    by simp
  have b: "var_type_uses_string t = (var_types_storage t = T_std_string)"
    by (cases t) simp_all
  have hd_in: "hd Ts \<in> set Ts" if "Ts \<noteq> []"
    using that by simp
  have c: "var_types_have_same_storage Ts \<and> have_same_storage_type Ts = T_std_string"
    if "Ts \<noteq> []" "set Ts \<subseteq> {var_string, var_string_noescape, var_optional_filename, var_filename}"
  proof -
    have "\<forall>U \<in> set Ts. var_types_storage U = T_std_string"
      using that(2) by auto
    moreover from this hd_in [OF that(1)] have "var_types_storage (hd Ts) = T_std_string"
      by blast
    ultimately show ?thesis
      using that(1) by (cases Ts) (simp_all add: same_storage_all)
  qed
  have d: "var_types_have_same_storage Ts \<and> have_same_storage_type Ts = T_int"
    if "Ts \<noteq> []" "set Ts \<subseteq> {var_zinteger, var_zuinteger_unlimited}"
  proof -
    have "\<forall>U \<in> set Ts. var_types_storage U = T_int"
      using that(2) by auto
    moreover from this hd_in [OF that(1)] have "var_types_storage (hd Ts) = T_int"
      by blast
    ultimately show ?thesis
      using that(1) by (cases Ts) (simp_all add: same_storage_all)
  qed
  show ?thesis
    using a b c d by simp
qed

theorem storage_groups_witness:
  "var_type_uses_string var_filename
   \<and> [var_filename, var_string, var_string_noescape] \<noteq> []
   \<and> var_types_have_same_storage [var_filename, var_string, var_string_noescape]
   \<and> var_types_have_same_storage [var_zuinteger_unlimited, var_zinteger]
   \<and> have_same_storage_type [var_zuinteger_unlimited, var_zinteger] = T_int"
  using storage_groups [of var_filename "[var_filename, var_string, var_string_noescape]"]
    storage_groups [of var_filename "[var_zuinteger_unlimited, var_zinteger]"]
  by simp

section \<open>Properties of the GCC modes\<close>

lemma c_get_mode_for_size_values:
  "c_get_mode_for_size 1 = Inr (Some ''QI'')"
  "c_get_mode_for_size 2 = Inr (Some ''HI'')"
  "c_get_mode_for_size 4 = Inr (Some ''SI'')"
  "c_get_mode_for_size 8 = Inr (Some ''DI'')"
  by (simp_all add: c_get_mode_for_size_def)

lemma compute_modes_4: "compute_modes 4 buf = Inr buf"
  by (subst compute_modes.simps) simp

lemma compute_modes_3: "compute_modes 3 buf = Inr (buf @ mode_typedef ''DI'')"
proof -
  have "compute_modes 3 buf = compute_modes 4 (buf @ mode_typedef ''DI'')"
    by (subst compute_modes.simps) (simp add: c_get_mode_for_size_values)
  then show ?thesis by (simp only: compute_modes_4)
qed

lemma compute_modes_2:
  "compute_modes 2 buf = Inr (buf @ mode_typedef ''SI'' @ mode_typedef ''DI'')"
proof -
  have "compute_modes 2 buf = compute_modes 3 (buf @ mode_typedef ''SI'')"
    by (subst compute_modes.simps) (simp add: c_get_mode_for_size_values)
  then show ?thesis by (simp only: compute_modes_3 append_assoc)
qed

lemma compute_modes_1:
  "compute_modes 1 buf
     = Inr (buf @ mode_typedef ''HI'' @ mode_typedef ''SI'' @ mode_typedef ''DI'')"
proof -
  have "compute_modes 1 buf = compute_modes 2 (buf @ mode_typedef ''HI'')"
    by (subst compute_modes.simps) (simp add: c_get_mode_for_size_values)
  then show ?thesis by (simp only: compute_modes_2 append_assoc)
qed

lemma compute_modes_0:
  "compute_modes 0 buf
     = Inr (buf @ mode_typedef ''QI'' @ mode_typedef ''HI'' @ mode_typedef ''SI''
              @ mode_typedef ''DI'')"
proof -
  have "compute_modes 0 buf = compute_modes 1 (buf @ mode_typedef ''QI'')"
    by (subst compute_modes.simps) (simp add: c_get_mode_for_size_values)
  then show ?thesis by (simp only: compute_modes_1 append_assoc)
qed

text \<open>
  Claim C10. \<open>c_get_mode_for_size\<close> returns \<open>QI\<close>, \<open>HI\<close>, \<open>SI\<close> and \<open>DI\<close> for the sizes 1, 2,
  4 and 8, raises an internal error for every other size, and never returns a null
  pointer. The loop of \<open>compile_program::compute\<close> over the sizes \<open>1 << i\<close>, \<open>i\<close> from 0 to
  3, therefore runs to its end, printing the four typedefs, and does not fail its
  assertion.
\<close>

theorem mode_for_size_total_on_powers:
  "c_get_mode_for_size 1 = Inr (Some ''QI'')
   \<and> c_get_mode_for_size 2 = Inr (Some ''HI'')
   \<and> c_get_mode_for_size 4 = Inr (Some ''SI'')
   \<and> c_get_mode_for_size 8 = Inr (Some ''DI'')
   \<and> (sz \<notin> {1, 2, 4, 8} \<longrightarrow> c_get_mode_for_size sz = Inl Internal_error)
   \<and> c_get_mode_for_size sz \<noteq> Inr None
   \<and> compute_modes 0 buf
       = Inr (buf @ mode_typedef ''QI'' @ mode_typedef ''HI'' @ mode_typedef ''SI''
                @ mode_typedef ''DI'')
   \<and> compute_modes 0 buf \<noteq> Inl Assertion_failure"
  by (simp only: compute_modes_0) (simp add: c_get_mode_for_size_def)

theorem mode_for_size_total_on_powers_witness:
  "(3::int) \<notin> {1, 2, 4, 8} \<and> c_get_mode_for_size 3 = Inl Internal_error
   \<and> c_get_mode_for_size 0 = Inl Internal_error
   \<and> compute_modes 0 [] \<noteq> Inl Assertion_failure"
  using mode_for_size_total_on_powers [of 3 "[]"] mode_for_size_total_on_powers [of 0 "[]"]
  by (simp del: compute_modes.simps)

section \<open>Properties of the command lookup\<close>

lemma lookup_no_token:
  "next_token (skip_whitespace inp) = [] \<Longrightarrow> lookup_cmd_1 inp clist ign = NoMatch"
  by (subst lookup_cmd_1.simps) (simp add: Let_def)

lemma lookup_no_match:
  "select_matches (next_token (skip_whitespace inp)) clist ign = []
   \<Longrightarrow> lookup_cmd_1 inp clist ign = NoMatch"
  by (subst lookup_cmd_1.simps) (simp add: Let_def)

lemma lookup_many:
  assumes "next_token (skip_whitespace inp) \<noteq> []"
    and "1 < length (select_matches (next_token (skip_whitespace inp)) clist ign)"
  shows "lookup_cmd_1 inp clist ign = Ambiguous None (skip_whitespace inp)"
proof -
  obtain x y zs where "select_matches (next_token (skip_whitespace inp)) clist ign = x # y # zs"
    using assms(2) by (cases "select_matches (next_token (skip_whitespace inp)) clist ign" rule: list.exhaust;
      simp; metis list.exhaust list.size(3) less_irrefl)
  with assms(1) show ?thesis
    by (subst lookup_cmd_1.simps) (simp add: Let_def)
qed

lemma lookup_one_other:
  assumes "next_token (skip_whitespace inp) \<noteq> []"
    and "select_matches (next_token (skip_whitespace inp)) clist ign = [found]"
    and "\<not> is_Prefix (fst (resolve_alias found []))
         \<or> skip_whitespace (drop (length (next_token (skip_whitespace inp))) (skip_whitespace inp)) = []"
  shows "lookup_cmd_1 inp clist ign
           = Unique (fst (resolve_alias found [])) clist
               (drop (length (next_token (skip_whitespace inp))) (skip_whitespace inp))
               (snd (resolve_alias found []))"
  using assms
  by (subst lookup_cmd_1.simps) (auto simp add: Let_def split: command_node.splits)

lemma lookup_one_prefix:
  assumes "next_token (skip_whitespace inp) \<noteq> []"
    and "select_matches (next_token (skip_whitespace inp)) clist ign = [found]"
    and "fst (resolve_alias found []) = Prefix n h a d subs"
    and "skip_whitespace (drop (length (next_token (skip_whitespace inp))) (skip_whitespace inp)) \<noteq> []"
  shows "lookup_cmd_1 inp clist ign
           = (case lookup_cmd_1 (drop (length (next_token (skip_whitespace inp))) (skip_whitespace inp))
                     subs ign of
                NoMatch \<Rightarrow>
                  Unique (Prefix n h a d subs) clist
                    (drop (length (next_token (skip_whitespace inp))) (skip_whitespace inp))
                    (snd (resolve_alias found []))
              | Unique c l cur da \<Rightarrow> Unique c l cur (snd (resolve_alias found []) @ da)
              | Ambiguous None cur \<Rightarrow> Ambiguous (Some (Prefix n h a d subs)) cur
              | Ambiguous (Some p) cur \<Rightarrow> Ambiguous (Some p) cur)"
  using assms
  by (subst lookup_cmd_1.simps) (simp add: Let_def split: lookup_result.splits option.splits)

lemma suffix_rest:
  "suffix (drop (length (next_token (skip_whitespace inp))) (skip_whitespace inp)) inp"
  unfolding skip_whitespace_def
  by (rule suffix_order.trans [OF suffix_drop suffix_dropWhile])

lemma ambiguous_result:
  assumes "lookup_cmd_1 inp clist ign = Ambiguous rl cur"
  shows "suffix cur inp \<and> skip_whitespace cur = cur \<and> next_token cur \<noteq> []
       \<and> (case rl of
             None \<Rightarrow> cur = skip_whitespace inp
                      \<and> 1 < length (select_matches (next_token cur) clist ign)
           | Some p \<Rightarrow> is_Prefix p
                      \<and> 1 < length (select_matches (next_token (skip_whitespace inp)) clist ign) = False
                      \<and> 1 < length (select_matches (next_token cur) (children p) ign))"
  using assms
proof (induction inp clist ign arbitrary: rl cur rule: lookup_cmd_1.induct)
  case (1 inp clist ign)
  let ?t1 = "skip_whitespace inp"
  let ?tok = "next_token ?t1"
  let ?ms = "select_matches ?tok clist ign"
  let ?rest = "drop (length ?tok) ?t1"
  have tok: "?tok \<noteq> []"
    using "1.prems" lookup_no_token [of inp clist ign] by auto
  consider (none) "?ms = []" | (one) found where "?ms = [found]" | (many) "1 < length ?ms"
    by (cases ?ms; simp; metis length_greater_0_conv list.exhaust)
  then show ?case
  proof cases
    case none
    with "1.prems" lookup_no_match [of inp clist ign] show ?thesis by simp
  next
    case many
    with tok "1.prems" lookup_many [of inp clist ign]
    have "rl = None" "cur = ?t1" by simp_all
    with many tok show ?thesis
      by (simp add: skip_whitespace_def suffix_dropWhile)
  next
    case one
    show ?thesis
    proof (cases "is_Prefix (fst (resolve_alias found [])) \<and> skip_whitespace ?rest \<noteq> []")
      case False
      with tok one "1.prems" lookup_one_other [of inp clist ign found] show ?thesis
        by auto
    next
      case True
      then obtain n h a d subs where pre: "fst (resolve_alias found []) = Prefix n h a d subs"
        by (auto simp: is_Prefix_def)
      from True have more: "skip_whitespace ?rest \<noteq> []" by simp
      note step = lookup_one_prefix [OF tok one pre more]
      note IH = "1.IH" [OF refl refl tok one refl refl refl pre more]
      show ?thesis
      proof (cases "lookup_cmd_1 ?rest subs ign")
        case NoMatch
        with step "1.prems" show ?thesis by simp
      next
        case (Unique c l t da)
        with step "1.prems" show ?thesis by simp
      next
        case (Ambiguous rl' cur')
        from IH [OF Ambiguous]
        have inner: "suffix cur' ?rest" "skip_whitespace cur' = cur'" "next_token cur' \<noteq> []"
          and sh: "case rl' of
             None \<Rightarrow> cur' = skip_whitespace ?rest
                      \<and> 1 < length (select_matches (next_token cur') subs ign)
           | Some p \<Rightarrow> is_Prefix p
                      \<and> 1 < length (select_matches (next_token (skip_whitespace ?rest)) subs ign) = False
                      \<and> 1 < length (select_matches (next_token cur') (children p) ign)"
          by simp_all
        from inner(1) have suf: "suffix cur' inp"
          using suffix_rest [of inp] by (rule suffix_order.trans)
        show ?thesis
        proof (cases rl')
          case None
          with step Ambiguous "1.prems" have "rl = Some (Prefix n h a d subs)" "cur = cur'"
            by simp_all
          with suf inner sh None one show ?thesis by auto
        next
          case (Some p)
          with step Ambiguous "1.prems" have "rl = Some p" "cur = cur'"
            by simp_all
          with suf inner sh Some one show ?thesis by auto
        qed
      qed
    qed
  qed
qed

text \<open>
  Claim C8. Whenever more than one sibling matches the token at the root list, the lookup
  returns the ambiguity sentinel with no enclosing prefix and the cursor at that token;
  whenever the token resolves to a prefix command among whose children the lookup is
  ambiguous, the lookup returns the sentinel with that prefix, or with the deeper prefix
  already reported. An ambiguous result is neither no-match nor any command node. Its
  cursor is a suffix of the input that starts at a token more than one sibling matches;
  the reported prefix is none exactly when the ambiguity is at the root list, and
  otherwise is a prefix command whose children are the siblings that match ambiguously.
\<close>

theorem ambiguous_lookup_shape:
  "(next_token (skip_whitespace inp) \<noteq> []
      \<and> 1 < length (select_matches (next_token (skip_whitespace inp)) clist ign)
      \<longrightarrow> lookup_cmd_1 inp clist ign = Ambiguous None (skip_whitespace inp))
   \<and> (next_token (skip_whitespace inp) \<noteq> []
      \<and> select_matches (next_token (skip_whitespace inp)) clist ign = [found]
      \<and> fst (resolve_alias found []) = Prefix n h a d subs
      \<and> lookup_cmd_1 (drop (length (next_token (skip_whitespace inp))) (skip_whitespace inp)) subs ign
          = Ambiguous rl' cur'
      \<longrightarrow> lookup_cmd_1 inp clist ign
            = Ambiguous (Some (case rl' of None \<Rightarrow> Prefix n h a d subs | Some p \<Rightarrow> p)) cur')
   \<and> (lookup_cmd_1 inp clist ign = Ambiguous rl cur
      \<longrightarrow> lookup_cmd_1 inp clist ign \<noteq> NoMatch
          \<and> (\<forall>c l t da. lookup_cmd_1 inp clist ign \<noteq> Unique c l t da)
          \<and> suffix cur inp \<and> skip_whitespace cur = cur \<and> next_token cur \<noteq> []
          \<and> (rl = None) = (1 < length (select_matches (next_token (skip_whitespace inp)) clist ign))
          \<and> (rl = None \<longrightarrow> cur = skip_whitespace inp)
          \<and> (\<forall>p. rl = Some p
                \<longrightarrow> is_Prefix p \<and> 1 < length (select_matches (next_token cur) (children p) ign)))"
  (is "?Root \<and> ?Nested \<and> ?Shape")
proof -
  have root: ?Root
    by (simp add: lookup_many)
  have nested: ?Nested
  proof (rule impI)
    let ?rest = "drop (length (next_token (skip_whitespace inp))) (skip_whitespace inp)"
    assume h: "next_token (skip_whitespace inp) \<noteq> []
      \<and> select_matches (next_token (skip_whitespace inp)) clist ign = [found]
      \<and> fst (resolve_alias found []) = Prefix n h a d subs
      \<and> lookup_cmd_1 ?rest subs ign = Ambiguous rl' cur'"
    then have "next_token (skip_whitespace ?rest) \<noteq> []"
      using lookup_no_token [of ?rest subs ign] by auto
    then have "skip_whitespace ?rest \<noteq> []"
      by (auto simp: next_token_def)
    with h show "lookup_cmd_1 inp clist ign
            = Ambiguous (Some (case rl' of None \<Rightarrow> Prefix n h a d subs | Some p \<Rightarrow> p)) cur'"
      by (simp add: lookup_one_prefix split: option.splits)
  qed
  have shape: ?Shape
  proof (rule impI)
    assume r: "lookup_cmd_1 inp clist ign = Ambiguous rl cur"
    from ambiguous_result [OF r] r
    show "lookup_cmd_1 inp clist ign \<noteq> NoMatch
          \<and> (\<forall>c l t da. lookup_cmd_1 inp clist ign \<noteq> Unique c l t da)
          \<and> suffix cur inp \<and> skip_whitespace cur = cur \<and> next_token cur \<noteq> []
          \<and> (rl = None) = (1 < length (select_matches (next_token (skip_whitespace inp)) clist ign))
          \<and> (rl = None \<longrightarrow> cur = skip_whitespace inp)
          \<and> (\<forall>p. rl = Some p
                \<longrightarrow> is_Prefix p \<and> 1 < length (select_matches (next_token cur) (children p) ign))"
      by (cases rl) auto
  qed
  from root nested shape show ?thesis
    by (intro conjI)
qed
theorem ambiguous_lookup_shape_witness:
  "lookup_cmd_1 '' in'' root_list True = Ambiguous None ''in''
   \<and> lookup_cmd_1 ''info a'' root_list True
       = Ambiguous (Some (Prefix ''info'' True True [] info_list)) ''a''
   \<and> suffix ''a'' ''info a''
   \<and> select_matches ''a'' info_list True
       = [Leaf ''args'' True True [], Leaf ''address'' True True []]"
proof -
  have sk: "skip_whitespace '' in'' = ''in''" "skip_whitespace ''info a'' = ''info a''"
    "skip_whitespace '' a'' = ''a''"
    by (simp_all add: skip_whitespace_def is_whitespace_def)
  have tok: "next_token ''in'' = ''in''" "next_token ''info a'' = ''info''"
    "next_token ''a'' = ''a''"
    by (simp_all add: next_token_def is_whitespace_def)
  have ms: "select_matches ''in'' root_list True
      = [Prefix ''info'' True True [] info_list, Leaf ''inferior'' True True []]"
    "select_matches ''info'' root_list True = [Prefix ''info'' True True [] info_list]"
    "select_matches ''a'' info_list True
       = [Leaf ''args'' True True [], Leaf ''address'' True True []]"
    by (simp_all add: select_matches_def token_matches_def root_list_def info_list_def)
  have root: "lookup_cmd_1 '' in'' root_list True = Ambiguous None ''in''"
    using ambiguous_lookup_shape [THEN conjunct1, of "'' in''" root_list True]
    by (simp add: tok ms sk)
  have inner: "lookup_cmd_1 '' a'' info_list True = Ambiguous None ''a''"
    using ambiguous_lookup_shape [THEN conjunct1, of "'' a''" info_list True]
    by (simp add: tok ms sk)
  have nested: "lookup_cmd_1 ''info a'' root_list True
       = Ambiguous (Some (Prefix ''info'' True True [] info_list)) ''a''"
    using ambiguous_lookup_shape [THEN conjunct2, THEN conjunct1, of "''info a''" root_list True
        "Prefix ''info'' True True [] info_list" "''info''" True True "[]" info_list None "''a''"]
      inner
    by (simp add: tok ms sk)
  from ambiguous_lookup_shape [THEN conjunct2, THEN conjunct2, of "''info a''" root_list True
      "Some (Prefix ''info'' True True [] info_list)" "''a''"] nested
  have "suffix ''a'' ''info a''"
    by simp
  with root nested ms show ?thesis by simp
qed

section \<open>Properties of command repetition\<close>

text \<open>
  Claim C9. Without a previously saved line, \<open>repeat_previous\<close> fails with the usage error
  and leaves the state, so the saved line, unchanged. Otherwise it returns the saved line
  and marks the current command as non-repeating, changing nothing else; the saved line is
  unchanged in both cases.
\<close>

theorem repeat_previous_result:
  "(saved_line st = None \<longrightarrow> repeat_previous st = (Inl No_previous_command, st))
   \<and> (\<forall>line. saved_line st = Some line
        \<longrightarrow> repeat_previous st = (Inr line, st\<lparr>no_repeat := True\<rparr>))
   \<and> saved_line (snd (repeat_previous st)) = saved_line st"
  by (simp add: repeat_previous_def split: option.splits)

theorem repeat_previous_result_witness:
  "repeat_previous \<lparr>saved_line = None, no_repeat = False, repeat_arguments = None\<rparr>
     = (Inl No_previous_command, \<lparr>saved_line = None, no_repeat = False, repeat_arguments = None\<rparr>)
   \<and> repeat_previous \<lparr>saved_line = Some ''step'', no_repeat = False, repeat_arguments = None\<rparr>
     = (Inr ''step'', \<lparr>saved_line = Some ''step'', no_repeat = True, repeat_arguments = None\<rparr>)"
  using repeat_previous_result [of "\<lparr>saved_line = None, no_repeat = False, repeat_arguments = None\<rparr>"]
    repeat_previous_result [of "\<lparr>saved_line = Some ''step'', no_repeat = False, repeat_arguments = None\<rparr>"]
  by simp

end
